theory Spec2Isabelle
  imports Main "HOL-Library.Sublist"
begin

section \<open>JavaScript values\<close>

text \<open>
  The values that \<open>JSON.parse\<close> and the remote store hand to
  \<^verbatim>\<open>src/utils.ts\<close>. An object is the list of its own properties in the order
  \<open>Object.entries\<close> enumerates them (keys are distinct in a JavaScript object). The code
  only asks of a number whether it is falsy and what its \<open>typeof\<close> is, so a number is
  represented by an integer.
\<close>

datatype jsval =
    JUndefined
  | JNull
  | JBool bool
  | JNum int
  | JStr string
  | JArr "jsval list"
  | JObj "(string \<times> jsval) list"

text \<open>The \<open>typeof\<close> operator; \<open>typeof null\<close> is \<open>'object'\<close>, as for arrays.\<close>

fun typeof :: "jsval \<Rightarrow> string" where
  "typeof JUndefined = ''undefined''"
| "typeof JNull = ''object''"
| "typeof (JBool b) = ''boolean''"
| "typeof (JNum n) = ''number''"
| "typeof (JStr s) = ''string''"
| "typeof (JArr xs) = ''object''"
| "typeof (JObj kvs) = ''object''"

text \<open>Truthiness, as tested by \<open>!x\<close> and \<open>if (x)\<close>.\<close>

fun truthy :: "jsval \<Rightarrow> bool" where
  "truthy JUndefined = False"
| "truthy JNull = False"
| "truthy (JBool b) = b"
| "truthy (JNum n) = (n \<noteq> 0)"
| "truthy (JStr s) = (s \<noteq> [])"
| "truthy (JArr xs) = True"
| "truthy (JObj kvs) = True"

text \<open>
  Reading a property \<open>x.p\<close> (or destructuring \<open>const {p} = x\<close>): \<open>None\<close> is the
  \<open>TypeError\<close> that JavaScript throws when \<open>x\<close> is \<open>undefined\<close> or \<open>null\<close>. The
  properties read in this file (\<open>dependencies\<close>, \<open>version\<close>, \<open>native_packages\<close>,
  \<open>name\<close>) exist on no prototype of a JSON value, so they are \<open>undefined\<close> on every
  value that is not an object holding them.
\<close>

fun get_prop :: "jsval \<Rightarrow> string \<Rightarrow> jsval option" where
  "get_prop JUndefined p = None"
| "get_prop JNull p = None"
| "get_prop (JObj kvs) p = Some (case map_of kvs p of Some v \<Rightarrow> v | None \<Rightarrow> JUndefined)"
| "get_prop (JBool b) p = Some JUndefined"
| "get_prop (JNum n) p = Some JUndefined"
| "get_prop (JStr s) p = Some JUndefined"
| "get_prop (JArr xs) p = Some JUndefined"

text \<open>Decimal numerals, for the index keys of arrays and strings.\<close>

fun string_of_nat :: "nat \<Rightarrow> string" where
  "string_of_nat n =
     (if n < 10 then [char_of (48 + n)]
      else string_of_nat (n div 10) @ [char_of (48 + n mod 10)])"

declare string_of_nat.simps [simp del]

text \<open>
  \<open>Object.entries\<close>: the own enumerable properties. An array and a string have their
  indices as keys, a number and a boolean have none, and \<open>undefined\<close> and \<open>null\<close> make
  it throw (\<open>None\<close>).
\<close>

fun Object_entries :: "jsval \<Rightarrow> (string \<times> jsval) list option" where
  "Object_entries JUndefined = None"
| "Object_entries JNull = None"
| "Object_entries (JBool b) = Some []"
| "Object_entries (JNum n) = Some []"
| "Object_entries (JStr s) =
     Some (zip (map string_of_nat [0..<length s]) (map (\<lambda>c. JStr [c]) s))"
| "Object_entries (JArr xs) = Some (zip (map string_of_nat [0..<length xs]) xs)"
| "Object_entries (JObj kvs) = Some kvs"

text \<open>
  A value that the code has checked to be a string, read at the type \<open>string\<close> that the
  TypeScript casts give it.
\<close>

fun str_of :: "jsval \<Rightarrow> string" where
  "str_of (JStr s) = s"
| "str_of v = []"

section \<open>The Map of the remote packages\<close>

text \<open>
  A JavaScript \<open>Map\<close> keeps its keys in the order of their first insertion; setting a key
  that is present replaces its value in place. \<open>new Map(pairs)\<close> sets the pairs from left
  to right, and spreading the map (\<open>[...m]\<close>) lists its entries in that order.
\<close>

fun Map_set :: "'k \<Rightarrow> 'v \<Rightarrow> ('k \<times> 'v) list \<Rightarrow> ('k \<times> 'v) list" where
  "Map_set k v [] = [(k, v)]"
| "Map_set k v ((k', v') # m) =
     (if k' = k then (k', v) # m else (k', v') # Map_set k v m)"

definition new_Map :: "('k \<times> 'v) list \<Rightarrow> ('k \<times> 'v) list" where
  "new_Map pairs = foldl (\<lambda>m (k, v). Map_set k v m) [] pairs"

definition Map_get :: "('k \<times> 'v) list \<Rightarrow> 'k \<Rightarrow> 'v option" where
  "Map_get m k = map_of m k"

section \<open>Records of the reconciliation\<close>

text \<open>
  The three object shapes of \<^verbatim>\<open>checkCompatibility\<close>: a remote package
  \<open>{name, version}\<close>, a local dependency \<open>{name, version, native}\<close> (\<open>native\<close> is
  \<open>undefined\<close>, here \<open>None\<close>, on the object returned for a missing folder), and an entry
  of the result \<open>{name, localVersion, remoteVersion}\<close>, where \<open>None\<close> is \<open>undefined\<close>.
\<close>

record named =
  name :: string

record package = named +
  version :: string

record dependency = package +
  native :: "bool option"

record compatibility = named +
  localVersion :: "string option"
  remoteVersion :: "string option"

record compatibility_result =
  finalCompatibility :: "compatibility list"
  localDependencies :: "dependency list"

section \<open>Regular expressions\<close>

text \<open>
  The fragment of JavaScript's regular expressions that \<^verbatim>\<open>nativeFileRegex\<close> is
  written in: character classes given by ranges, literal characters, sequence,
  alternation, \<open>+\<close> and \<open>*\<close>. Capturing groups do not change which strings match and
  are not represented.
\<close>

datatype regex =
    Never
  | Empty
  | CharClass "(char \<times> char) list"
  | Lit char
  | Seq regex regex
  | Alt regex regex
  | Star regex
  | Plus regex

definition in_ranges :: "(char \<times> char) list \<Rightarrow> char \<Rightarrow> bool" where
  "in_ranges rs c =
     list_ex (\<lambda>(lo, hi). (of_char lo :: nat) \<le> of_char c \<and> (of_char c :: nat) \<le> of_char hi) rs"

fun nullable :: "regex \<Rightarrow> bool" where
  "nullable Never = False"
| "nullable Empty = True"
| "nullable (CharClass rs) = False"
| "nullable (Lit c) = False"
| "nullable (Seq r s) = (nullable r \<and> nullable s)"
| "nullable (Alt r s) = (nullable r \<or> nullable s)"
| "nullable (Star r) = True"
| "nullable (Plus r) = nullable r"

text \<open>What is left of the expression once the character \<open>c\<close> has been read.\<close>

fun deriv :: "char \<Rightarrow> regex \<Rightarrow> regex" where
  "deriv c Never = Never"
| "deriv c Empty = Never"
| "deriv c (CharClass rs) = (if in_ranges rs c then Empty else Never)"
| "deriv c (Lit d) = (if c = d then Empty else Never)"
| "deriv c (Seq r s) =
     (if nullable r then Alt (Seq (deriv c r) s) (deriv c s) else Seq (deriv c r) s)"
| "deriv c (Alt r s) = Alt (deriv c r) (deriv c s)"
| "deriv c (Star r) = Seq (deriv c r) (Star r)"
| "deriv c (Plus r) = Seq (deriv c r) (Star r)"

text \<open>The expression matches the whole of the string.\<close>

fun matches :: "regex \<Rightarrow> string \<Rightarrow> bool" where
  "matches r [] = nullable r"
| "matches r (c # cs) = matches (deriv c r) cs"

text \<open>
  \<open>/r$/.test(s)\<close> for an expression with no flags: a match may start at any index of
  \<open>s\<close> and, because of the final \<open>$\<close>, has to reach the end of \<open>s\<close>. Without the \<open>g\<close>
  and \<open>y\<close> flags \<open>test\<close> keeps no state between calls.
\<close>

definition test_to_end :: "regex \<Rightarrow> string \<Rightarrow> bool" where
  "test_to_end r s = list_ex (matches r) (suffixes s)"

fun Word :: "string \<Rightarrow> regex" where
  "Word [] = Empty"
| "Word (c # cs) = Seq (Lit c) (Word cs)"

text \<open>\<^verbatim>\<open>const nativeFileRegex = /([A-Za-z0-9]+)\.(java|swift|kt|scala)$/\<close>, without its \<open>$\<close>.\<close>

definition nativeFileRegex :: regex where
  "nativeFileRegex =
     Seq (Plus (CharClass [(CHR ''A'', CHR ''Z''), (CHR ''a'', CHR ''z''), (CHR ''0'', CHR ''9'')]))
       (Seq (Lit CHR ''.'')
         (Alt (Word ''java'') (Alt (Word ''swift'') (Alt (Word ''kt'') (Word ''scala'')))))"

definition nativeFileRegex_test :: "string \<Rightarrow> bool" where
  "nativeFileRegex_test fileName = test_to_end nativeFileRegex fileName"

section \<open>Runs and their failures\<close>

text \<open>
  Every failure of the code is a message written with \<open>p.log.error\<close> followed by
  \<open>program.error('')\<close>, which (commander's default) ends the process with exit code 1.
  The messages are named as the specification names the errors:
  \<^item> \<open>ManifestMissing\<close>: "Missing package.json, you need to be in a capacitor project";
  \<^item> \<open>ManifestMalformed\<close>: "Invalid package.json, JSON parsing failed";
  \<^item> \<open>DependenciesSectionMissing\<close>: "Missing dependencies section in package.json";
  \<^item> \<open>DependencyValueInvalid key\<close>: "Invalid dependency key: ..., expected string, ...";
  \<^item> \<open>InstalledPackagesMissing\<close>: "Missing node_modules folder, please run npm install";
  \<^item> \<open>DependencyFolderMissing key\<close>: "Missing dependency key, please run npm install";
  \<^item> \<open>ScanFailed key\<close>: "Error reading node_modulses files for key package";
  \<^item> \<open>ChannelLookupFailed message\<close>: "Error fetching native packages: message";
  \<^item> \<open>NativePackagesUnreadable\<close>: "Error parsing native packages";
  \<^item> \<open>NativeMetadataMissing\<close>: "Error parsing native packages, perhaps the metadata
    does not exist?";
  \<^item> \<open>NativeMetadataMalformed part\<close>: "Invalid remote native package data / name /
    version: ...".
\<close>

datatype malformed_part = InvalidData | InvalidName | InvalidVersion

datatype failure =
    ManifestMissing
  | ManifestMalformed
  | DependenciesSectionMissing
  | DependencyValueInvalid string
  | InstalledPackagesMissing
  | DependencyFolderMissing string
  | ScanFailed string
  | ChannelLookupFailed string
  | NativePackagesUnreadable
  | NativeMetadataMissing
  | NativeMetadataMalformed malformed_part

text \<open>
  How a run ends: it returns a value, the process exits in \<open>program.error\<close>, or an
  exception that nothing catches (a \<open>TypeError\<close>) rejects the promise of the function.
  A run is the list of the messages logged, in order, and its end.
\<close>

datatype 'a outcome = Returned 'a | Exited | Threw

type_synonym 'a run = "failure list \<times> 'a outcome"

definition fail_with :: "failure \<Rightarrow> 'a run" where
  "fail_with e = ([e], Exited)"

definition and_then :: "'a run \<Rightarrow> ('a \<Rightarrow> 'b run) \<Rightarrow> 'b run" where
  "and_then r f =
     (case r of
        (log, Returned x) \<Rightarrow> (case f x of (log', y) \<Rightarrow> (log @ log', y))
      | (log, Exited) \<Rightarrow> (log, Exited)
      | (log, Threw) \<Rightarrow> (log, Threw))"

section \<open>getLocalDepenencies\<close>

text \<open>
  What the function reads of the file system: \<open>existsSync\<close> on a path, the value of
  \<open>JSON.parse(readFileSync('./package.json', 'utf8'))\<close> (\<open>None\<close> when either call
  throws), and the promise of \<open>promiseFiles\<close> on a folder, which resolves with the paths of
  the files below it or is rejected (\<open>None\<close>).
\<close>

record env =
  existsSync :: "string \<Rightarrow> bool"
  JSON_parse_package_json :: "jsval option"
  promiseFiles :: "string \<Rightarrow> string list option"

definition dependency_folder :: "string \<Rightarrow> string" where
  "dependency_folder key = ''./node_modules/'' @ key"

text \<open>
  \<open>files.find(fileName => nativeFileRegex.test(fileName))\<close> under \<open>if\<close>: the first
  matching path, tested for truthiness.
\<close>

definition hasNativeFiles :: "string list \<Rightarrow> bool" where
  "hasNativeFiles files =
     (case find nativeFileRegex_test files of
        None \<Rightarrow> False
      | Some fileName \<Rightarrow> truthy (JStr fileName))"

text \<open>
  The callback mapped over the entries of \<open>dependencies\<close>. It returns \<open>{name, version}\<close>
  at once when the folder is missing (after setting \<open>anyInvalid\<close> and logging), ends
  in the \<open>catch\<close> handler when the scan is rejected, and returns
  \<open>{name, version, native}\<close> otherwise.
\<close>

datatype scan = FolderMissing dependency | ScanRejected string | Scanned dependency

definition scan_dependency :: "env \<Rightarrow> string \<times> jsval \<Rightarrow> scan" where
  "scan_dependency fs entry =
     (case entry of (key, value) \<Rightarrow>
        if \<not> existsSync fs (dependency_folder key)
        then FolderMissing \<lparr>name = key, version = str_of value, native = None\<rparr>
        else (case promiseFiles fs (dependency_folder key) of
                None \<Rightarrow> ScanRejected key
              | Some files \<Rightarrow>
                  Scanned \<lparr>name = key, version = str_of value, native = Some (hasNativeFiles files)\<rparr>))"

fun missing_logged :: "scan \<Rightarrow> failure list" where
  "missing_logged (FolderMissing d) = [DependencyFolderMissing (name d)]"
| "missing_logged (ScanRejected key) = []"
| "missing_logged (Scanned d) = []"

fun rejected :: "scan \<Rightarrow> string list" where
  "rejected (FolderMissing d) = []"
| "rejected (ScanRejected key) = [key]"
| "rejected (Scanned d) = []"

fun resolved :: "scan \<Rightarrow> dependency list" where
  "resolved (FolderMissing d) = [d]"
| "resolved (ScanRejected key) = []"
| "resolved (Scanned d) = [d]"

text \<open>
  \<open>Promise.all\<close> over the callbacks. Every callback runs up to its first \<open>await\<close>
  while \<open>map\<close> builds the array, so the missing folders are logged first, in the order of
  the entries. The scans then finish in an order the model does not fix: the first
  rejection delivered logs its message and exits the process, and the model names the
  first rejected scan in the order of the entries. When no scan is rejected, line 470
  exits if \<open>anyInvalid\<close> is set or some object has no \<open>native\<close> field. The
  \<open>catch(() => [])\<close> of line 467 has nothing to catch: no callback throws, and
  \<open>program.error\<close> does not return.
\<close>

definition scan_all :: "env \<Rightarrow> (string \<times> jsval) list \<Rightarrow> dependency list run" where
  "scan_all fs entries =
     (let scans = map (scan_dependency fs) entries;
          logged = concat (map missing_logged scans);
          anyInvalid = (logged \<noteq> [])
      in case concat (map rejected scans) of
           key # keys \<Rightarrow> (logged @ [ScanFailed key], Exited)
         | [] \<Rightarrow>
             (let dependenciesObject = concat (map resolved scans)
              in if anyInvalid \<or> find (\<lambda>a. native a = None) dependenciesObject \<noteq> None
                 then (logged, Exited)
                 else (logged, Returned dependenciesObject)))"

text \<open>
  Lines 403 to 434: the five checks on the manifest and on \<open>node_modules\<close>, in the
  order of the source, and the entries of \<open>dependencies\<close> when all of them pass.
  Destructuring \<open>dependencies\<close> out of \<open>null\<close> throws before the third check.
\<close>

definition declaredDependencies :: "env \<Rightarrow> (string \<times> jsval) list run" where
  "declaredDependencies fs =
     (if \<not> existsSync fs ''./package.json'' then fail_with ManifestMissing
      else case JSON_parse_package_json fs of
        None \<Rightarrow> fail_with ManifestMalformed
      | Some packageJson \<Rightarrow>
         (case get_prop packageJson ''dependencies'' of
            None \<Rightarrow> ([], Threw)
          | Some dependencies \<Rightarrow>
             if \<not> truthy dependencies then fail_with DependenciesSectionMissing
             else (case Object_entries dependencies of
                None \<Rightarrow> ([], Threw)
              | Some entries \<Rightarrow>
                 (case find (\<lambda>(key, value). typeof value \<noteq> ''string'') entries of
                    Some (key, value) \<Rightarrow> fail_with (DependencyValueInvalid key)
                  | None \<Rightarrow>
                     if \<not> existsSync fs ''./node_modules/''
                     then fail_with InstalledPackagesMissing
                     else ([], Returned entries)))))"

definition getLocalDepenencies :: "env \<Rightarrow> dependency list run" where
  "getLocalDepenencies fs = and_then (declaredDependencies fs) (scan_all fs)"

section \<open>getRemoteDepenencies\<close>

text \<open>
  The answer of the store to the query on \<open>channels\<close>: \<open>data\<close> and, when the query
  failed, the message of \<open>error\<close>.
\<close>

record query_result =
  data :: jsval
  error :: "string option"

text \<open>The body of the \<open>forEach\<close> callback, and the package the entry is then cast to.\<close>

definition check_entry :: "jsval \<Rightarrow> package run" where
  "check_entry entry =
     (if typeof entry \<noteq> ''object'' then fail_with (NativeMetadataMalformed InvalidData)
      else case (get_prop entry ''name'', get_prop entry ''version'') of
        (Some name', Some version') \<Rightarrow>
          if \<not> truthy name' \<or> typeof name' \<noteq> ''string''
          then fail_with (NativeMetadataMalformed InvalidName)
          else if \<not> truthy version' \<or> typeof version' \<noteq> ''string''
          then fail_with (NativeMetadataMalformed InvalidVersion)
          else ([], Returned \<lparr>name = str_of name', version = str_of version'\<rparr>)
      | _ \<Rightarrow> ([], Threw))"

fun check_types :: "jsval list \<Rightarrow> package list run" where
  "check_types [] = ([], Returned [])"
| "check_types (entry # entries) =
     and_then (check_entry entry) (\<lambda>a.
     and_then (check_types entries) (\<lambda>as. ([], Returned (a # as))))"

definition getRemoteDepenencies :: "query_result \<Rightarrow> (string \<times> package) list run" where
  "getRemoteDepenencies res =
     (case error res of
        Some message \<Rightarrow> fail_with (ChannelLookupFailed message)
      | None \<Rightarrow>
         (case Option.bind (get_prop (data res) ''version'')
                 (\<lambda>version'. get_prop version' ''native_packages'') of
            None \<Rightarrow> fail_with NativePackagesUnreadable
          | Some castedRemoteNativePackages \<Rightarrow>
             if \<not> truthy castedRemoteNativePackages then fail_with NativeMetadataMissing
             else (case castedRemoteNativePackages of
                JArr entries \<Rightarrow>
                  and_then (check_types entries) (\<lambda>as.
                    ([], Returned (new_Map (map (\<lambda>a. (name a, a)) as))))
              | _ \<Rightarrow> ([], Threw))))"

section \<open>checkCompatibility\<close>

text \<open>
  Lines 548 to 570. \<open>finalDepenencies\<close> is the array of the first pass, before the
  entries of \<open>removeNotInLocal\<close> are pushed onto it. A package found in the map is an
  object, hence truthy under \<open>if (remotePackage)\<close>. The filter of the first pass is
  \<open>(a) => !!a.native\<close>:
\<close>

definition is_native :: "dependency \<Rightarrow> bool" where
  "is_native a = (native a = Some True)"

definition finalDepenencies ::
  "dependency list \<Rightarrow> (string \<times> package) list \<Rightarrow> compatibility list" where
  "finalDepenencies dependenciesObject mappedRemoteNativePackages =
     map (\<lambda>local.
            case Map_get mappedRemoteNativePackages (name local) of
              Some remotePackage \<Rightarrow>
                \<lparr>name = name local, localVersion = Some (version local),
                 remoteVersion = Some (version remotePackage)\<rparr>
            | None \<Rightarrow>
                \<lparr>name = name local, localVersion = Some (version local),
                 remoteVersion = None\<rparr>)
       (filter is_native dependenciesObject)"

definition removeNotInLocal ::
  "dependency list \<Rightarrow> (string \<times> package) list \<Rightarrow> compatibility list" where
  "removeNotInLocal dependenciesObject mappedRemoteNativePackages =
     map (\<lambda>(name', version').
            \<lparr>name = name', localVersion = None, remoteVersion = Some (version version')\<rparr>)
       (filter (\<lambda>(remoteName, remotePackage).
                  find (\<lambda>a. name a = remoteName) dependenciesObject = None)
          mappedRemoteNativePackages)"

definition checkCompatibility :: "env \<Rightarrow> query_result \<Rightarrow> compatibility_result run" where
  "checkCompatibility fs res =
     and_then (getLocalDepenencies fs) (\<lambda>dependenciesObject.
     and_then (getRemoteDepenencies res) (\<lambda>mappedRemoteNativePackages.
       ([], Returned
          \<lparr>finalCompatibility =
             finalDepenencies dependenciesObject mappedRemoteNativePackages
             @ removeNotInLocal dependenciesObject mappedRemoteNativePackages,
           localDependencies = dependenciesObject\<rparr>)))"

section \<open>Vocabulary of the specification\<close>

text \<open>The names of the entries of a result, of the local dependencies and of the remote map.\<close>

definition entry_names :: "compatibility list \<Rightarrow> string set" where
  "entry_names entries = set (map name entries)"

definition local_names :: "dependency list \<Rightarrow> string set" where
  "local_names L = set (map name L)"

definition local_native_names :: "dependency list \<Rightarrow> string set" where
  "local_native_names L = set (map name (filter is_native L))"

definition remote_names :: "(string \<times> package) list \<Rightarrow> string set" where
  "remote_names R = set (map fst R)"

text \<open>The three variants of an entry, as the specification names them.\<close>

definition Matched :: "string \<Rightarrow> string \<Rightarrow> string \<Rightarrow> compatibility" where
  "Matched n l r = \<lparr>name = n, localVersion = Some l, remoteVersion = Some r\<rparr>"

definition LocalOnly :: "string \<Rightarrow> string \<Rightarrow> compatibility" where
  "LocalOnly n l = \<lparr>name = n, localVersion = Some l, remoteVersion = None\<rparr>"

definition RemoteOnly :: "string \<Rightarrow> string \<Rightarrow> compatibility" where
  "RemoteOnly n r = \<lparr>name = n, localVersion = None, remoteVersion = Some r\<rparr>"

text \<open>
  The pattern of a native source file in the words of the specification: one or more
  alphanumeric characters (the ASCII letters and digits), a dot, and one of the four
  extensions, at the end of the path.
\<close>

definition letters_and_digits :: string where
  "letters_and_digits =
     ''ABCDEFGHIJKLMNOPQRSTUVWXYZabcdefghijklmnopqrstuvwxyz0123456789''"

definition alphanumeric :: "char \<Rightarrow> bool" where
  "alphanumeric c = (c \<in> set letters_and_digits)"

definition native_extensions :: "string list" where
  "native_extensions = [''java'', ''swift'', ''kt'', ''scala'']"

definition native_source_path :: "string \<Rightarrow> bool" where
  "native_source_path path =
     (\<exists>before identifier ext.
        path = before @ identifier @ ''.'' @ ext \<and> identifier \<noteq> []
        \<and> list_all alphanumeric identifier \<and> ext \<in> set native_extensions)"

text \<open>The strings a regular expression denotes.\<close>

definition lang_seq :: "string set \<Rightarrow> string set \<Rightarrow> string set" where
  "lang_seq A B = {u @ v | u v. u \<in> A \<and> v \<in> B}"

inductive_set lang_star :: "string set \<Rightarrow> string set" for A :: "string set" where
  star_nil: "[] \<in> lang_star A"
| star_app: "u \<in> A \<Longrightarrow> v \<in> lang_star A \<Longrightarrow> u @ v \<in> lang_star A"

fun lang :: "regex \<Rightarrow> string set" where
  "lang Never = {}"
| "lang Empty = {[]}"
| "lang (CharClass rs) = {[c] | c. in_ranges rs c}"
| "lang (Lit c) = {[c]}"
| "lang (Seq r s) = lang_seq (lang r) (lang s)"
| "lang (Alt r s) = lang r \<union> lang s"
| "lang (Star r) = lang_star (lang r)"
| "lang (Plus r) = lang_seq (lang r) (lang_star (lang r))"

section \<open>Example inputs\<close>

text \<open>
  The example of the specification: \<open>A\<close> and \<open>B\<close> hold a native source file, \<open>C\<close> does
  not; the channel records \<open>A\<close> and \<open>D\<close>.
\<close>

definition example_fs :: env where
  "example_fs =
     \<lparr>existsSync = (\<lambda>path. path \<in> set [''./package.json'', ''./node_modules/'',
        ''./node_modules/A'', ''./node_modules/B'', ''./node_modules/C'']),
      JSON_parse_package_json = Some (JObj [(''name'', JStr ''app''),
        (''dependencies'',
           JObj [(''A'', JStr ''1.0.0''), (''B'', JStr ''2.0.0''), (''C'', JStr ''1.0.0'')])]),
      promiseFiles = (\<lambda>path.
        if path = ''./node_modules/A'' then Some [''A/a.js'', ''A/ios/P.swift'']
        else if path = ''./node_modules/B'' then Some [''B/B.java'']
        else if path = ''./node_modules/C'' then Some [''C/c.js'']
        else None)\<rparr>"

definition native_packages_result :: "jsval \<Rightarrow> query_result" where
  "native_packages_result v =
     \<lparr>data = JObj [(''version'', JObj [(''native_packages'', v)])], error = None\<rparr>"

definition remote_entry :: "string \<Rightarrow> string \<Rightarrow> jsval" where
  "remote_entry n v = JObj [(''name'', JStr n), (''version'', JStr v)]"

definition example_res :: query_result where
  "example_res =
     native_packages_result (JArr [remote_entry ''A'' ''1.0.0'', remote_entry ''D'' ''3.0.0''])"

definition example_local :: "dependency list" where
  "example_local =
     [\<lparr>name = ''A'', version = ''1.0.0'', native = Some True\<rparr>,
      \<lparr>name = ''B'', version = ''2.0.0'', native = Some True\<rparr>,
      \<lparr>name = ''C'', version = ''1.0.0'', native = Some False\<rparr>]"

definition example_remote :: "(string \<times> package) list" where
  "example_remote =
     [(''A'', \<lparr>name = ''A'', version = ''1.0.0''\<rparr>),
      (''D'', \<lparr>name = ''D'', version = ''3.0.0''\<rparr>)]"

text \<open>A channel that records \<open>C\<close>, which the project declares and which is not native.\<close>

definition shadowed_res :: query_result where
  "shadowed_res =
     native_packages_result (JArr [remote_entry ''A'' ''1.0.0'', remote_entry ''C'' ''0.9.0''])"

definition shadowed_remote :: "(string \<times> package) list" where
  "shadowed_remote =
     [(''A'', \<lparr>name = ''A'', version = ''1.0.0''\<rparr>),
      (''C'', \<lparr>name = ''C'', version = ''0.9.0''\<rparr>)]"

text \<open>The same project with the folder of \<open>B\<close> missing from \<open>node_modules\<close>.\<close>

definition missing_folder_fs :: env where
  "missing_folder_fs =
     example_fs\<lparr>existsSync := (\<lambda>path. path \<in> set [''./package.json'', ''./node_modules/'',
        ''./node_modules/A'', ''./node_modules/C''])\<rparr>"

text \<open>The same project with the folder of \<open>B\<close> present and unreadable.\<close>

definition unreadable_fs :: env where
  "unreadable_fs =
     example_fs\<lparr>promiseFiles := (\<lambda>path.
        if path = ''./node_modules/B'' then None else promiseFiles example_fs path)\<rparr>"

text \<open>A manifest whose whole content is the JSON text \<open>null\<close>.\<close>

definition null_manifest_fs :: env where
  "null_manifest_fs = example_fs\<lparr>JSON_parse_package_json := Some JNull\<rparr>"

text \<open>
  An entry of the remote list as the specification wants it: an object with a non-empty
  string \<open>name\<close> and a non-empty string \<open>version\<close>.
\<close>

definition well_formed_entry :: "jsval \<Rightarrow> bool" where
  "well_formed_entry entry =
     (\<exists>properties n v. entry = JObj properties
        \<and> map_of properties ''name'' = Some (JStr n) \<and> n \<noteq> []
        \<and> map_of properties ''version'' = Some (JStr v) \<and> v \<noteq> [])"

section \<open>The remote map and the merge\<close>

lemma Map_set_keys:
  "map fst (Map_set k v m) = (if k \<in> set (map fst m) then map fst m else map fst m @ [k])"
  by (induction m) (auto simp: rev_image_eqI)

lemma distinct_Map_set: "distinct (map fst m) \<Longrightarrow> distinct (map fst (Map_set k v m))"
  by (simp add: Map_set_keys)

lemma distinct_foldl_Map_set:
  "distinct (map fst m) \<Longrightarrow> distinct (map fst (foldl (\<lambda>m (k, v). Map_set k v m) m pairs))"
  by (induction pairs arbitrary: m) (auto simp: distinct_Map_set)

lemma distinct_new_Map: "distinct (map fst (new_Map pairs))"
  by (simp add: new_Map_def distinct_foldl_Map_set)

lemma and_then_Returned:
  "and_then r f = (log, Returned y) \<longleftrightarrow>
     (\<exists>l x l'. r = (l, Returned x) \<and> f x = (l', Returned y) \<and> log = l @ l')"
  by (auto simp: and_then_def split: prod.splits outcome.splits)

lemma getRemoteDepenencies_distinct:
  "getRemoteDepenencies res = (log, Returned R) \<Longrightarrow> distinct (map fst R)"
  by (auto simp: getRemoteDepenencies_def fail_with_def and_then_Returned distinct_new_Map
      split: option.splits if_splits jsval.splits)

lemma checkCompatibility_Returned:
  assumes "getLocalDepenencies fs = (l, Returned L)" and "getRemoteDepenencies res = (l', Returned R)"
  shows "checkCompatibility fs res =
    (l @ l', Returned \<lparr>finalCompatibility = finalDepenencies L R @ removeNotInLocal L R,
                       localDependencies = L\<rparr>)"
  using assms by (simp add: checkCompatibility_def and_then_def)

lemma names_finalDepenencies: "map name (finalDepenencies L R) = map name (filter is_native L)"
  by (simp add: finalDepenencies_def o_def split: option.splits cong: map_cong)

lemma find_None_iff_names: "find (\<lambda>a. name a = n) L = None \<longleftrightarrow> n \<notin> local_names L"
  by (auto simp: find_None_iff local_names_def)

lemma names_removeNotInLocal:
  "map name (removeNotInLocal L R) = filter (\<lambda>n. n \<notin> local_names L) (map fst R)"
  by (induction R) (auto simp: removeNotInLocal_def find_None_iff_names)


lemma entry_names_finalDepenencies:
  "entry_names (finalDepenencies L R) = local_native_names L"
  by (simp add: entry_names_def local_native_names_def names_finalDepenencies)

lemma entry_names_removeNotInLocal:
  "entry_names (removeNotInLocal L R) = remote_names R - local_names L"
  by (auto simp: entry_names_def remote_names_def names_removeNotInLocal)

lemma local_native_names_subset: "local_native_names L \<subseteq> local_names L"
  by (auto simp: local_native_names_def local_names_def)

lemma distinct_names_merged:
  assumes "distinct (map name L)" and "distinct (map fst R)"
  shows "distinct (map name (finalDepenencies L R @ removeNotInLocal L R))"
proof -
  have "distinct (map name (filter is_native L))"
    using assms(1) by (simp add: distinct_map_filter)
  moreover have "distinct (filter (\<lambda>n. n \<notin> local_names L) (map fst R))"
    using assms(2) by simp
  moreover have "set (map name (filter is_native L)) \<inter> set (filter (\<lambda>n. n \<notin> local_names L) (map fst R)) = {}"
    by (auto simp: local_names_def)
  ultimately show ?thesis
    by (simp add: names_finalDepenencies names_removeNotInLocal)
qed

lemma non_native_not_in_native_names:
  assumes "distinct (map name L)" and "a \<in> set L" and "native a = Some False"
  shows "name a \<notin> local_native_names L"
proof
  assume "name a \<in> local_native_names L"
  then obtain b where b: "b \<in> set L" "is_native b" "name b = name a"
    by (auto simp: local_native_names_def)
  with assms(1,2) have "b = a"
    by (meson distinct_map inj_onD)
  with b(2) assms(3) show False
    by (simp add: is_native_def)
qed

lemma example_local_run: "getLocalDepenencies example_fs = ([], Returned example_local)"
  by code_simp

lemma example_remote_run: "getRemoteDepenencies example_res = ([], Returned example_remote)"
  by code_simp

lemma shadowed_remote_run: "getRemoteDepenencies shadowed_res = ([], Returned shadowed_remote)"
  by code_simp

lemma example_local_distinct: "distinct (map name example_local)"
  by (simp add: example_local_def)

lemma set_finalDepenencies:
  "set (finalDepenencies L R) =
     (\<lambda>a. case Map_get R (name a) of
             Some p \<Rightarrow> Matched (name a) (version a) (version p)
           | None \<Rightarrow> LocalOnly (name a) (version a)) ` {a \<in> set L. is_native a}"
  unfolding finalDepenencies_def Matched_def LocalOnly_def by simp

lemma set_removeNotInLocal:
  "set (removeNotInLocal L R) =
     (\<lambda>(n, p). RemoteOnly n (version p)) ` {(n, p) \<in> set R. n \<notin> local_names L}"
  by (auto simp: removeNotInLocal_def find_None_iff_names RemoteOnly_def image_iff)

lemma example_C_declared:
  "\<lparr>name = ''C'', version = ''1.0.0'', native = Some False\<rparr> \<in> set example_local"
  by (simp add: example_local_def)

lemma shadowed_C_recorded: "''C'' \<in> remote_names shadowed_remote"
  by (simp add: remote_names_def shadowed_remote_def)

section \<open>The regular expression and the words of the specification\<close>

lemma lang_seq_Nil: "[] \<in> lang_seq A B \<longleftrightarrow> [] \<in> A \<and> [] \<in> B"
  by (auto simp: lang_seq_def)

lemma lang_seq_Cons:
  "c # w \<in> lang_seq A B \<longleftrightarrow>
     (\<exists>u v. w = u @ v \<and> c # u \<in> A \<and> v \<in> B) \<or> ([] \<in> A \<and> c # w \<in> B)"
proof
  assume "c # w \<in> lang_seq A B"
  then obtain x y where xy: "c # w = x @ y" "x \<in> A" "y \<in> B"
    by (auto simp: lang_seq_def)
  show "(\<exists>u v. w = u @ v \<and> c # u \<in> A \<and> v \<in> B) \<or> ([] \<in> A \<and> c # w \<in> B)"
  proof (cases x)
    case Nil
    with xy show ?thesis by simp
  next
    case (Cons d u)
    with xy have "w = u @ y" "c # u \<in> A" by simp_all
    with xy(3) show ?thesis by blast
  qed
next
  assume "(\<exists>u v. w = u @ v \<and> c # u \<in> A \<and> v \<in> B) \<or> ([] \<in> A \<and> c # w \<in> B)"
  then show "c # w \<in> lang_seq A B"
  proof
    assume "\<exists>u v. w = u @ v \<and> c # u \<in> A \<and> v \<in> B"
    then obtain u v where "w = u @ v" "c # u \<in> A" "v \<in> B" by blast
    then have "c # w = (c # u) @ v \<and> c # u \<in> A \<and> v \<in> B" by simp
    then show ?thesis unfolding lang_seq_def by blast
  next
    assume "[] \<in> A \<and> c # w \<in> B"
    then have "c # w = [] @ (c # w) \<and> [] \<in> A \<and> c # w \<in> B" by simp
    then show ?thesis unfolding lang_seq_def by blast
  qed
qed

lemma lang_star_Cons_split:
  assumes "x \<in> lang_star A" and "x = c # w"
  shows "\<exists>u v. w = u @ v \<and> c # u \<in> A \<and> v \<in> lang_star A"
  using assms
proof (induction arbitrary: w rule: lang_star.induct)
  case star_nil
  then show ?case by simp
next
  case (star_app u v)
  show ?case
  proof (cases u)
    case Nil
    with star_app show ?thesis by simp
  next
    case (Cons d u')
    with star_app.prems have "w = u' @ v" "d = c" by simp_all
    with Cons star_app.hyps show ?thesis by blast
  qed
qed

lemma lang_star_Cons:
  "c # w \<in> lang_star A \<longleftrightarrow> (\<exists>u v. w = u @ v \<and> c # u \<in> A \<and> v \<in> lang_star A)"
proof
  assume "c # w \<in> lang_star A"
  then show "\<exists>u v. w = u @ v \<and> c # u \<in> A \<and> v \<in> lang_star A"
    by (rule lang_star_Cons_split) simp
next
  assume "\<exists>u v. w = u @ v \<and> c # u \<in> A \<and> v \<in> lang_star A"
  then obtain u v where uv: "w = u @ v" "c # u \<in> A" "v \<in> lang_star A" by blast
  from uv(2,3) have "(c # u) @ v \<in> lang_star A" by (rule star_app)
  with uv(1) show "c # w \<in> lang_star A" by simp
qed

lemma nullable_iff: "nullable r \<longleftrightarrow> [] \<in> lang r"
  by (induction r) (auto simp: lang_seq_Nil intro: star_nil)

lemma lang_deriv: "w \<in> lang (deriv c r) \<longleftrightarrow> c # w \<in> lang r"
proof (induction r arbitrary: w)
  case (Seq r s)
  then show ?case
    by (auto simp: lang_seq_Cons nullable_iff) (auto simp: lang_seq_def)
next
  case (Star r)
  then show ?case
    by (auto simp: lang_star_Cons) (auto simp: lang_seq_def)
next
  case (Plus r)
  have "c # w \<in> lang_seq (lang r) (lang_star (lang r)) \<longleftrightarrow>
          (\<exists>u v. w = u @ v \<and> c # u \<in> lang r \<and> v \<in> lang_star (lang r))"
    by (auto simp: lang_seq_Cons lang_star_Cons)
  with Plus show ?case
    by (auto simp: lang_seq_def)
qed auto

lemma matches_iff: "matches r w \<longleftrightarrow> w \<in> lang r"
  by (induction w arbitrary: r) (simp_all add: nullable_iff lang_deriv)

lemma test_to_end_iff: "test_to_end r s \<longleftrightarrow> (\<exists>before t. s = before @ t \<and> t \<in> lang r)"
proof -
  have "test_to_end r s \<longleftrightarrow> (\<exists>t. suffix t s \<and> t \<in> lang r)"
    by (auto simp: test_to_end_def list_ex_iff matches_iff)
  also have "\<dots> \<longleftrightarrow> (\<exists>before t. s = before @ t \<and> t \<in> lang r)"
    unfolding suffix_def by blast
  finally show ?thesis .
qed

lemma lang_Word: "lang (Word w) = {w}"
  by (induction w) (auto simp: lang_seq_def)

lemma lang_star_chars: "lang_star {[c] | c. P c} = {w. list_all P w}"
proof (intro set_eqI iffI)
  fix w assume "w \<in> lang_star {[c] | c. P c}"
  then show "w \<in> {w. list_all P w}"
    by (induction rule: lang_star.induct) auto
next
  fix w assume "w \<in> {w. list_all P w}"
  then have "list_all P w" by simp
  then show "w \<in> lang_star {[c] | c. P c}"
  proof (induction w)
    case Nil
    show ?case by (rule star_nil)
  next
    case (Cons c w)
    then have "[c] \<in> {[c] | c. P c}" "w \<in> lang_star {[c] | c. P c}" by auto
    then have "[c] @ w \<in> lang_star {[c] | c. P c}" by (rule star_app)
    then show ?case by simp
  qed
qed

lemma lang_plus_chars:
  "lang_seq {[c] | c. P c} (lang_star {[c] | c. P c}) = {w. w \<noteq> [] \<and> list_all P w}"
proof (intro set_eqI iffI)
  fix w assume "w \<in> lang_seq {[c] | c. P c} (lang_star {[c] | c. P c})"
  then show "w \<in> {w. w \<noteq> [] \<and> list_all P w}"
    by (auto simp: lang_seq_def lang_star_chars)
next
  fix w assume "w \<in> {w. w \<noteq> [] \<and> list_all P w}"
  then obtain c cs where "w = [c] @ cs" "P c" "list_all P cs"
    by (cases w) auto
  then show "w \<in> lang_seq {[c] | c. P c} (lang_star {[c] | c. P c})"
    unfolding lang_seq_def lang_star_chars by blast
qed

lemma codes_of_letters_and_digits:
  "map of_char letters_and_digits = [65..<91] @ [97..<123] @ [48..<(58::nat)]"
  by code_simp

lemma alphanumeric_ranges:
  "in_ranges [(CHR ''A'', CHR ''Z''), (CHR ''a'', CHR ''z''), (CHR ''0'', CHR ''9'')] c
     \<longleftrightarrow> alphanumeric c"
proof -
  have "c \<in> set letters_and_digits \<longleftrightarrow> (of_char c :: nat) \<in> of_char ` set letters_and_digits"
    by (auto simp: image_iff)
  also have "of_char ` set letters_and_digits = set (map of_char letters_and_digits :: nat list)"
    by simp
  also have "(of_char c :: nat) \<in> set (map of_char letters_and_digits) \<longleftrightarrow>
      65 \<le> (of_char c :: nat) \<and> (of_char c :: nat) \<le> 90
      \<or> 97 \<le> (of_char c :: nat) \<and> (of_char c :: nat) \<le> 122
      \<or> 48 \<le> (of_char c :: nat) \<and> (of_char c :: nat) \<le> 57"
    unfolding codes_of_letters_and_digits set_append set_upt Un_iff atLeastLessThan_iff
    by linarith
  finally show ?thesis
    by (simp add: in_ranges_def alphanumeric_def)
qed

lemma lang_nativeFileRegex:
  "lang nativeFileRegex =
     {identifier @ ''.'' @ ext | identifier ext.
        identifier \<noteq> [] \<and> list_all alphanumeric identifier \<and> ext \<in> set native_extensions}"
proof -
  have ident: "lang (Plus (CharClass [(CHR ''A'', CHR ''Z''), (CHR ''a'', CHR ''z''), (CHR ''0'', CHR ''9'')]))
      = {w. w \<noteq> [] \<and> list_all alphanumeric w}"
    using lang_plus_chars [of alphanumeric] by (simp add: alphanumeric_ranges)
  have exts: "lang (Alt (Word ''java'') (Alt (Word ''swift'') (Alt (Word ''kt'') (Word ''scala''))))
      = set native_extensions"
    unfolding lang.simps lang_Word native_extensions_def by auto
  have "lang nativeFileRegex =
      lang_seq {w. w \<noteq> [] \<and> list_all alphanumeric w} (lang_seq {''.''} (set native_extensions))"
    unfolding nativeFileRegex_def lang.simps(5) ident exts by simp
  then show ?thesis
    by (auto simp: lang_seq_def)
qed

lemma nativeFileRegex_test_iff: "nativeFileRegex_test path \<longleftrightarrow> native_source_path path"
  unfolding nativeFileRegex_test_def test_to_end_iff lang_nativeFileRegex native_source_path_def
  by blast

lemma hasNativeFiles_iff: "hasNativeFiles files \<longleftrightarrow> (\<exists>path \<in> set files. native_source_path path)"
proof (cases "find nativeFileRegex_test files")
  case None
  then have "\<not> hasNativeFiles files"
    by (simp add: hasNativeFiles_def)
  moreover from None have "\<forall>path \<in> set files. \<not> native_source_path path"
    by (simp add: find_None_iff nativeFileRegex_test_iff)
  ultimately show ?thesis
    by blast
next
  case (Some fileName)
  then have found: "fileName \<in> set files" "nativeFileRegex_test fileName"
    by (auto simp: find_Some_iff)
  then have "native_source_path fileName"
    by (simp add: nativeFileRegex_test_iff)
  moreover from this have "fileName \<noteq> []"
    by (auto simp: native_source_path_def)
  ultimately show ?thesis
    using Some found(1) by (auto simp: hasNativeFiles_def)
qed

section \<open>Facts about runs\<close>

lemma and_then_Exited: "and_then (log, Exited) f = (log, Exited)"
  by (simp add: and_then_def)

lemma and_then_Threw: "and_then (log, Threw) f = (log, Threw)"
  by (simp add: and_then_def)

lemma checkCompatibility_needs_remote:
  assumes "getRemoteDepenencies res = (l', Exited)"
  shows "checkCompatibility fs res \<noteq> (log, Returned out)"
  using assms by (auto simp: checkCompatibility_def and_then_Returned)

lemma getRemoteDepenencies_metadata:
  assumes "error res = None"
    and "get_prop (data res) ''version'' = Some release"
    and "get_prop release ''native_packages'' = Some v"
  shows "getRemoteDepenencies res =
     (if \<not> truthy v then fail_with NativeMetadataMissing
      else case v of
        JArr entries \<Rightarrow>
          and_then (check_types entries) (\<lambda>as. ([], Returned (new_Map (map (\<lambda>a. (name a, a)) as))))
      | _ \<Rightarrow> ([], Threw))"
  using assms by (simp add: getRemoteDepenencies_def)

lemma native_packages_result_props:
  "error (native_packages_result v) = None"
  "get_prop (data (native_packages_result v)) ''version'' = Some (JObj [(''native_packages'', v)])"
  "get_prop (JObj [(''native_packages'', v)]) ''native_packages'' = Some v"
  by (simp_all add: native_packages_result_def)

section \<open>The scan of the dependencies\<close>

lemma missing_logged_scan:
  "missing_logged (scan_dependency fs (key, value)) =
     (if existsSync fs (dependency_folder key) then [] else [DependencyFolderMissing key])"
  by (simp add: scan_dependency_def split: option.splits)

lemma rejected_scan:
  "rejected (scan_dependency fs (key, value)) =
     (if existsSync fs (dependency_folder key) \<and> promiseFiles fs (dependency_folder key) = None
      then [key] else [])"
  by (simp add: scan_dependency_def split: option.splits)

lemma resolved_scan:
  "existsSync fs (dependency_folder key) \<Longrightarrow> promiseFiles fs (dependency_folder key) = Some files \<Longrightarrow>
   resolved (scan_dependency fs (key, value)) =
     [\<lparr>name = key, version = str_of value, native = Some (hasNativeFiles files)\<rparr>]"
  by (simp add: scan_dependency_def)

lemma folder_missing_logged:
  assumes "(key, value) \<in> set entries" and "\<not> existsSync fs (dependency_folder key)"
  shows "DependencyFolderMissing key \<in> set (concat (map missing_logged (map (scan_dependency fs) entries)))"
  using assms by (force simp: missing_logged_scan)

lemma rejected_keys:
  "set (concat (map rejected (map (scan_dependency fs) entries))) =
     {key. \<exists>value. (key, value) \<in> set entries \<and> existsSync fs (dependency_folder key)
                \<and> promiseFiles fs (dependency_folder key) = None}"
  by (induction entries) (auto simp: rejected_scan)

lemma logged_keys:
  "set (concat (map missing_logged (map (scan_dependency fs) entries))) =
     {DependencyFolderMissing key | key value.
        (key, value) \<in> set entries \<and> \<not> existsSync fs (dependency_folder key)}"
  by (induction entries) (auto simp: missing_logged_scan split: if_splits)

lemma scan_all_cases:
  assumes "logged = concat (map missing_logged (map (scan_dependency fs) entries))"
    and "rej = concat (map rejected (map (scan_dependency fs) entries))"
    and "res = concat (map resolved (map (scan_dependency fs) entries))"
  shows "scan_all fs entries =
     (case rej of
        key # keys \<Rightarrow> (logged @ [ScanFailed key], Exited)
      | [] \<Rightarrow>
          if logged \<noteq> [] \<or> find (\<lambda>a. native a = None) res \<noteq> None
          then (logged, Exited) else (logged, Returned res))"
  unfolding assms scan_all_def Let_def by (rule refl)

lemma scan_all_folder_missing:
  assumes "(key, value) \<in> set entries" and "\<not> existsSync fs (dependency_folder key)"
  shows "\<exists>log. scan_all fs entries = (log, Exited) \<and> DependencyFolderMissing key \<in> set log"
proof -
  define logged where "logged = concat (map missing_logged (map (scan_dependency fs) entries))"
  define rej where "rej = concat (map rejected (map (scan_dependency fs) entries))"
  define res where "res = concat (map resolved (map (scan_dependency fs) entries))"
  note run = scan_all_cases [OF logged_def rej_def res_def]
  have logged: "DependencyFolderMissing key \<in> set logged"
    unfolding logged_def logged_keys using assms by blast
  then have nonempty: "logged \<noteq> []"
    by auto
  show ?thesis
  proof (cases rej)
    case Nil
    with nonempty have "scan_all fs entries = (logged, Exited)"
      by (simp add: run)
    with logged show ?thesis by blast
  next
    case (Cons key' keys)
    then have "scan_all fs entries = (logged @ [ScanFailed key'], Exited)"
      by (simp add: run)
    moreover from logged have "DependencyFolderMissing key \<in> set (logged @ [ScanFailed key'])"
      by simp
    ultimately show ?thesis by blast
  qed
qed

lemma scan_all_rejected:
  assumes "(key, value) \<in> set entries" and "existsSync fs (dependency_folder key)"
    and "promiseFiles fs (dependency_folder key) = None"
  shows "\<exists>log key'. scan_all fs entries = (log @ [ScanFailed key'], Exited)
           \<and> ScanFailed key' \<notin> set log
           \<and> existsSync fs (dependency_folder key') \<and> promiseFiles fs (dependency_folder key') = None"
proof -
  define logged where "logged = concat (map missing_logged (map (scan_dependency fs) entries))"
  define rej where "rej = concat (map rejected (map (scan_dependency fs) entries))"
  define res where "res = concat (map resolved (map (scan_dependency fs) entries))"
  note run = scan_all_cases [OF logged_def rej_def res_def]
  have "key \<in> set rej"
    unfolding rej_def rejected_keys using assms by blast
  then obtain key' keys where first: "rej = key' # keys"
    by (cases rej) auto
  then have "key' \<in> set rej"
    by simp
  then have failing: "existsSync fs (dependency_folder key')"
      "promiseFiles fs (dependency_folder key') = None"
    unfolding rej_def rejected_keys by auto
  have "ScanFailed key' \<notin> set logged"
    unfolding logged_def logged_keys by blast
  moreover from first have "scan_all fs entries = (logged @ [ScanFailed key'], Exited)"
    by (simp add: run)
  ultimately show ?thesis
    using failing by blast
qed

lemma scan_all_Returned:
  assumes "scan_all fs entries = (log, Returned L)"
  shows "log = []"
    and "\<forall>(key, value) \<in> set entries. existsSync fs (dependency_folder key)
            \<and> promiseFiles fs (dependency_folder key) \<noteq> None"
    and "L = map (\<lambda>(key, value). \<lparr>name = key, version = str_of value,
              native = map_option hasNativeFiles (promiseFiles fs (dependency_folder key))\<rparr>) entries"
proof -
  define logged where "logged = concat (map missing_logged (map (scan_dependency fs) entries))"
  define rej where "rej = concat (map rejected (map (scan_dependency fs) entries))"
  define res where "res = concat (map resolved (map (scan_dependency fs) entries))"
  note run = scan_all_cases [OF logged_def rej_def res_def]
  from assms have rej: "rej = []"
    by (cases rej) (simp_all add: run)
  with assms have logged: "logged = []" and L: "L = res" and log_eq: "log = logged"
    by (simp_all add: run split: if_splits)
  from log_eq logged show "log = []"
    by simp
  have exist: "existsSync fs (dependency_folder key)" if "(key, v) \<in> set entries" for key v
  proof (rule ccontr)
    assume "\<not> existsSync fs (dependency_folder key)"
    with that have "DependencyFolderMissing key \<in> set logged"
      unfolding logged_def logged_keys by blast
    with logged show False by simp
  qed
  have scanned: "promiseFiles fs (dependency_folder key) \<noteq> None" if "(key, v) \<in> set entries" for key v
  proof
    assume "promiseFiles fs (dependency_folder key) = None"
    with that exist [OF that] have "key \<in> set rej"
      unfolding rej_def rejected_keys by blast
    with rej show False by simp
  qed
  from exist scanned show "\<forall>(key, value) \<in> set entries. existsSync fs (dependency_folder key)
            \<and> promiseFiles fs (dependency_folder key) \<noteq> None"
    by blast
  have "concat (map resolved (map (scan_dependency fs) es)) =
      map (\<lambda>(key, value). \<lparr>name = key, version = str_of value,
              native = map_option hasNativeFiles (promiseFiles fs (dependency_folder key))\<rparr>) es"
    if "set es \<subseteq> set entries" for es
    using that
  proof (induction es)
    case Nil
    show ?case by simp
  next
    case (Cons e es)
    obtain key v where e: "e = (key, v)" by (cases e)
    with Cons.prems have mem: "(key, v) \<in> set entries" by simp
    from scanned [OF mem] obtain files where files: "promiseFiles fs (dependency_folder key) = Some files"
      by blast
    from Cons have "concat (map resolved (map (scan_dependency fs) es)) =
      map (\<lambda>(key, value). \<lparr>name = key, version = str_of value,
              native = map_option hasNativeFiles (promiseFiles fs (dependency_folder key))\<rparr>) es"
      by simp
    then show ?case
      using e files resolved_scan [OF exist [OF mem] files] by simp
  qed
  with L show "L = map (\<lambda>(key, value). \<lparr>name = key, version = str_of value,
              native = map_option hasNativeFiles (promiseFiles fs (dependency_folder key))\<rparr>) entries"
    unfolding res_def by simp
qed

lemma scan_all_succeeds:
  assumes "\<forall>(key, value) \<in> set entries. existsSync fs (dependency_folder key)
            \<and> promiseFiles fs (dependency_folder key) \<noteq> None"
  shows "\<exists>L. scan_all fs entries = ([], Returned L)"
proof -
  define logged where "logged = concat (map missing_logged (map (scan_dependency fs) entries))"
  define rej where "rej = concat (map rejected (map (scan_dependency fs) entries))"
  define res where "res = concat (map resolved (map (scan_dependency fs) entries))"
  note run = scan_all_cases [OF logged_def rej_def res_def]
  have rej: "rej = []"
    unfolding rej_def using assms by (induction entries) (auto simp: rejected_scan)
  have logged: "logged = []"
    unfolding logged_def using assms by (induction entries) (auto simp: missing_logged_scan)
  have "\<forall>a \<in> set res. native a \<noteq> None"
    unfolding res_def using assms
    by (induction entries) (auto simp: scan_dependency_def split: option.splits)
  then have "find (\<lambda>a. native a = None) res = None"
    by (simp add: find_None_iff)
  with rej logged show ?thesis
    by (simp add: run)
qed

section \<open>The checks of the manifest\<close>

lemma getLocalDepenencies_declared:
  "declaredDependencies fs = ([], Returned entries) \<Longrightarrow> getLocalDepenencies fs = scan_all fs entries"
  by (cases "scan_all fs entries") (simp add: getLocalDepenencies_def and_then_def)

lemma declaredDependencies_log:
  "declaredDependencies fs = (log, Returned entries) \<Longrightarrow> log = []"
  by (auto simp: declaredDependencies_def fail_with_def split: if_splits option.splits prod.splits)

lemma getLocalDepenencies_Returned:
  assumes "getLocalDepenencies fs = (log, Returned L)"
  shows "\<exists>entries. declaredDependencies fs = ([], Returned entries) \<and> scan_all fs entries = (log, Returned L)"
proof -
  from assms obtain l entries l' where
    run: "declaredDependencies fs = (l, Returned entries)" "scan_all fs entries = (l', Returned L)" "log = l @ l'"
    unfolding getLocalDepenencies_def and_then_Returned by blast
  from run(1) have "l = []"
    by (rule declaredDependencies_log)
  with run show ?thesis by simp
qed

lemma no_invalid_value:
  "find (\<lambda>(key, value). typeof value \<noteq> ''string'') entries = None \<longleftrightarrow>
     (\<forall>(key, value) \<in> set entries. typeof value = ''string'')"
  by (auto simp: find_None_iff)

lemma declaredDependencies_checked:
  assumes "existsSync fs ''./package.json''"
    and "JSON_parse_package_json fs = Some packageJson"
    and "get_prop packageJson ''dependencies'' = Some dependencies"
    and "truthy dependencies"
    and "Object_entries dependencies = Some entries"
  shows "declaredDependencies fs =
     (case find (\<lambda>(key, value). typeof value \<noteq> ''string'') entries of
        Some (key, value) \<Rightarrow> fail_with (DependencyValueInvalid key)
      | None \<Rightarrow>
          if \<not> existsSync fs ''./node_modules/'' then fail_with InstalledPackagesMissing
          else ([], Returned entries))"
  using assms by (simp add: declaredDependencies_def)

lemma declaredDependencies_Returned_iff:
  "declaredDependencies fs = ([], Returned entries) \<longleftrightarrow>
     existsSync fs ''./package.json''
     \<and> (\<exists>packageJson dependencies.
           JSON_parse_package_json fs = Some packageJson
           \<and> get_prop packageJson ''dependencies'' = Some dependencies
           \<and> truthy dependencies
           \<and> Object_entries dependencies = Some entries)
     \<and> (\<forall>(key, value) \<in> set entries. typeof value = ''string'')
     \<and> existsSync fs ''./node_modules/''"
    (is "?run \<longleftrightarrow> ?checks")
proof
  assume ?run
  then have "existsSync fs ''./package.json''
     \<and> (\<exists>packageJson dependencies.
           JSON_parse_package_json fs = Some packageJson
           \<and> get_prop packageJson ''dependencies'' = Some dependencies
           \<and> truthy dependencies
           \<and> Object_entries dependencies = Some entries)
     \<and> find (\<lambda>(key, value). typeof value \<noteq> ''string'') entries = None
     \<and> existsSync fs ''./node_modules/''"
    by (simp add: declaredDependencies_def fail_with_def split: if_splits option.splits prod.splits)
  then show ?checks
    unfolding no_invalid_value .
next
  assume checks: ?checks
  then obtain packageJson dependencies where manifest:
      "existsSync fs ''./package.json''"
      "JSON_parse_package_json fs = Some packageJson"
      "get_prop packageJson ''dependencies'' = Some dependencies"
      "truthy dependencies"
      "Object_entries dependencies = Some entries"
    by blast
  from checks have "find (\<lambda>(key, value). typeof value \<noteq> ''string'') entries = None"
    unfolding no_invalid_value by blast
  moreover from checks have "existsSync fs ''./node_modules/''"
    by blast
  ultimately show ?run
    by (simp add: declaredDependencies_checked [OF manifest])
qed

lemma checkCompatibility_needs_local:
  "getLocalDepenencies fs = (log, Exited) \<Longrightarrow> checkCompatibility fs res = (log, Exited)"
  by (simp add: checkCompatibility_def and_then_def)

lemma missing_folder_declared:
  "declaredDependencies missing_folder_fs =
     ([], Returned [(''A'', JStr ''1.0.0''), (''B'', JStr ''2.0.0''), (''C'', JStr ''1.0.0'')])"
  by code_simp

lemma unreadable_declared:
  "declaredDependencies unreadable_fs =
     ([], Returned [(''A'', JStr ''1.0.0''), (''B'', JStr ''2.0.0''), (''C'', JStr ''1.0.0'')])"
  by code_simp

lemma example_A_declared:
  "\<lparr>name = ''A'', version = ''1.0.0'', native = Some True\<rparr> \<in> set example_local"
  by (simp add: example_local_def)

section \<open>The checks of the remote entries\<close>

text \<open>
  A list of well-formed entries is accepted whole; a list with an entry that is not
  well formed gives no map: the run exits with \<open>NativeMetadataMalformed\<close>, unless the
  first such entry is \<open>null\<close>, which passes the \<open>typeof\<close> check and makes the
  destructuring throw.
\<close>

lemma check_entry_well_formed:
  assumes "well_formed_entry entry"
  shows "\<exists>a. check_entry entry = ([], Returned a) \<and> name a \<noteq> [] \<and> version a \<noteq> []
           \<and> get_prop entry ''name'' = Some (JStr (name a))
           \<and> get_prop entry ''version'' = Some (JStr (version a))"
  using assms by (auto simp: well_formed_entry_def check_entry_def)

lemma check_entry_malformed:
  assumes "\<not> well_formed_entry entry" and "entry \<noteq> JNull"
  shows "\<exists>part. check_entry entry = ([NativeMetadataMalformed part], Exited)"
proof (cases entry)
  case (JObj properties)
  show ?thesis
  proof (cases "map_of properties ''name''")
    case None
    with JObj show ?thesis
      by (simp add: check_entry_def fail_with_def)
  next
    case (Some n)
    show ?thesis
    proof (cases "truthy n \<and> typeof n = ''string''")
      case False
      with JObj Some show ?thesis
        by (auto simp: check_entry_def fail_with_def)
    next
      case True
      then obtain n' where n: "n = JStr n'" "n' \<noteq> []"
        by (cases n) auto
      with assms(1) JObj Some have "\<not> (\<exists>v. map_of properties ''version'' = Some (JStr v) \<and> v \<noteq> [])"
        by (simp add: well_formed_entry_def)
      then have "\<not> (truthy (case map_of properties ''version'' of Some v \<Rightarrow> v | None \<Rightarrow> JUndefined)
            \<and> typeof (case map_of properties ''version'' of Some v \<Rightarrow> v | None \<Rightarrow> JUndefined) = ''string'')"
        by (cases "map_of properties ''version''"; cases "the (map_of properties ''version'')") auto
      with JObj Some n show ?thesis
        by (auto simp: check_entry_def fail_with_def)
    qed
  qed
qed (use assms(2) in \<open>simp_all add: check_entry_def fail_with_def\<close>)

lemma check_entry_null: "check_entry JNull = ([], Threw)"
  by (simp add: check_entry_def)

lemma check_types_malformed:
  assumes "\<not> list_all well_formed_entry entries"
  shows "(\<exists>part. check_types entries = ([NativeMetadataMalformed part], Exited))
         \<or> (check_types entries = ([], Threw) \<and> JNull \<in> set entries)"
  using assms
proof (induction entries)
  case Nil
  then show ?case by simp
next
  case (Cons entry entries)
  show ?case
  proof (cases "well_formed_entry entry")
    case True
    then obtain a where a: "check_entry entry = ([], Returned a)"
      using check_entry_well_formed by blast
    from True Cons.prems have "\<not> list_all well_formed_entry entries"
      by simp
    with Cons.IH have "(\<exists>part. check_types entries = ([NativeMetadataMalformed part], Exited))
         \<or> (check_types entries = ([], Threw) \<and> JNull \<in> set entries)" .
    with a show ?thesis
      by (auto simp: and_then_def)
  next
    case False
    show ?thesis
    proof (cases "entry = JNull")
      case True
      then show ?thesis
        by (simp add: check_entry_null and_then_def)
    next
      case False
      with \<open>\<not> well_formed_entry entry\<close> obtain part where
        "check_entry entry = ([NativeMetadataMalformed part], Exited)"
        using check_entry_malformed by blast
      then show ?thesis
        by (simp add: and_then_def)
    qed
  qed
qed

lemma check_types_well_formed:
  assumes "list_all well_formed_entry entries"
  shows "\<exists>as. check_types entries = ([], Returned as) \<and> length as = length entries"
  using assms
proof (induction entries)
  case Nil
  then show ?case by simp
next
  case (Cons entry entries)
  then obtain a as where "check_entry entry = ([], Returned a)"
      "check_types entries = ([], Returned as)" "length as = length entries"
    using check_entry_well_formed by fastforce
  then show ?case
    by (simp add: and_then_def)
qed

lemma remote_validation_all_or_nothing:
  assumes "error res = None"
    and "get_prop (data res) ''version'' = Some release"
    and "get_prop release ''native_packages'' = Some (JArr entries)"
  shows "(list_all well_formed_entry entries \<longrightarrow>
            (\<exists>R. getRemoteDepenencies res = ([], Returned R)))
         \<and> (\<not> list_all well_formed_entry entries \<longrightarrow>
              (\<exists>part. getRemoteDepenencies res = ([NativeMetadataMalformed part], Exited))
              \<or> (getRemoteDepenencies res = ([], Threw) \<and> JNull \<in> set entries))"
proof (intro conjI impI)
  assume "list_all well_formed_entry entries"
  then obtain as where "check_types entries = ([], Returned as)"
    using check_types_well_formed by blast
  then show "\<exists>R. getRemoteDepenencies res = ([], Returned R)"
    by (simp add: getRemoteDepenencies_metadata [OF assms] and_then_def)
next
  assume "\<not> list_all well_formed_entry entries"
  then have "(\<exists>part. check_types entries = ([NativeMetadataMalformed part], Exited))
         \<or> (check_types entries = ([], Threw) \<and> JNull \<in> set entries)"
    by (rule check_types_malformed)
  then show "(\<exists>part. getRemoteDepenencies res = ([NativeMetadataMalformed part], Exited))
              \<or> (getRemoteDepenencies res = ([], Threw) \<and> JNull \<in> set entries)"
    by (auto simp: getRemoteDepenencies_metadata [OF assms] and_then_def)
qed

section \<open>The ladder of the manifest errors\<close>

text \<open>
  Each check of lines 403 to 434 in turn, for a manifest that parses to a value other
  than \<open>null\<close>, and what a run that passed them all can still log and return.
\<close>

lemma find_Some_holds: "find P xs = Some x \<Longrightarrow> x \<in> set xs \<and> P x"
  by (induction xs) (auto split: if_splits)

lemma manifest_missing:
  "\<not> existsSync fs ''./package.json'' \<Longrightarrow> getLocalDepenencies fs = ([ManifestMissing], Exited)"
  by (simp add: getLocalDepenencies_def declaredDependencies_def fail_with_def and_then_def)

lemma manifest_malformed:
  "existsSync fs ''./package.json'' \<Longrightarrow> JSON_parse_package_json fs = None \<Longrightarrow>
   getLocalDepenencies fs = ([ManifestMalformed], Exited)"
  by (simp add: getLocalDepenencies_def declaredDependencies_def fail_with_def and_then_def)

lemma manifest_null:
  "existsSync fs ''./package.json'' \<Longrightarrow> JSON_parse_package_json fs = Some JNull \<Longrightarrow>
   getLocalDepenencies fs = ([], Threw)"
  by (simp add: getLocalDepenencies_def declaredDependencies_def and_then_def)

lemma dependencies_section_missing:
  "existsSync fs ''./package.json'' \<Longrightarrow> JSON_parse_package_json fs = Some packageJson \<Longrightarrow>
   get_prop packageJson ''dependencies'' = Some dependencies \<Longrightarrow> \<not> truthy dependencies \<Longrightarrow>
   getLocalDepenencies fs = ([DependenciesSectionMissing], Exited)"
  by (simp add: getLocalDepenencies_def declaredDependencies_def fail_with_def and_then_def)

lemma dependency_value_invalid:
  assumes "existsSync fs ''./package.json''"
    and "JSON_parse_package_json fs = Some packageJson"
    and "get_prop packageJson ''dependencies'' = Some dependencies"
    and "truthy dependencies"
    and "Object_entries dependencies = Some entries"
    and "(key, v) \<in> set entries" and "typeof v \<noteq> ''string''"
  shows "\<exists>key' v'. (key', v') \<in> set entries \<and> typeof v' \<noteq> ''string''
           \<and> getLocalDepenencies fs = ([DependencyValueInvalid key'], Exited)"
proof -
  from assms(6,7) have "find (\<lambda>(key, value). typeof value \<noteq> ''string'') entries \<noteq> None"
    unfolding no_invalid_value by blast
  then obtain key' v' where found: "find (\<lambda>(key, value). typeof value \<noteq> ''string'') entries = Some (key', v')"
    by fastforce
  then have "(key', v') \<in> set entries \<and> typeof v' \<noteq> ''string''"
    using find_Some_holds by fastforce
  moreover from found have "getLocalDepenencies fs = ([DependencyValueInvalid key'], Exited)"
    by (simp add: getLocalDepenencies_def declaredDependencies_checked [OF assms(1-5)]
        fail_with_def and_then_def)
  ultimately show ?thesis by blast
qed

lemma installed_packages_missing:
  assumes "existsSync fs ''./package.json''"
    and "JSON_parse_package_json fs = Some packageJson"
    and "get_prop packageJson ''dependencies'' = Some dependencies"
    and "truthy dependencies"
    and "Object_entries dependencies = Some entries"
    and "\<forall>(key, value) \<in> set entries. typeof value = ''string''"
    and "\<not> existsSync fs ''./node_modules/''"
  shows "getLocalDepenencies fs = ([InstalledPackagesMissing], Exited)"
proof -
  from assms(6) have "find (\<lambda>(key, value). typeof value \<noteq> ''string'') entries = None"
    unfolding no_invalid_value .
  with assms(7) show ?thesis
    by (simp add: getLocalDepenencies_def declaredDependencies_checked [OF assms(1-5)]
        fail_with_def and_then_def)
qed

lemma scan_all_log:
  "scan_all fs entries = (log, out) \<Longrightarrow>
   \<forall>e \<in> set log. (\<exists>key. e = DependencyFolderMissing key) \<or> (\<exists>key. e = ScanFailed key)"
proof -
  define logged where "logged = concat (map missing_logged (map (scan_dependency fs) entries))"
  define rej where "rej = concat (map rejected (map (scan_dependency fs) entries))"
  define res where "res = concat (map resolved (map (scan_dependency fs) entries))"
  note run = scan_all_cases [OF logged_def rej_def res_def]
  have "\<forall>e \<in> set logged. \<exists>key. e = DependencyFolderMissing key"
    unfolding logged_def logged_keys by blast
  moreover assume "scan_all fs entries = (log, out)"
  ultimately show ?thesis
    unfolding run by (cases rej) (auto split: if_splits)
qed

lemma declared_dependencies_returned:
  assumes "declaredDependencies fs = ([], Returned entries)"
    and "getLocalDepenencies fs = (log, out)"
  shows "set log \<inter> {ManifestMissing, ManifestMalformed, DependenciesSectionMissing,
            InstalledPackagesMissing} = {}"
    and "\<forall>key. DependencyValueInvalid key \<notin> set log"
    and "\<forall>L. out = Returned L \<longrightarrow>
            map (\<lambda>a. (name a, JStr (version a))) L = entries"
proof -
  from assms have scan: "scan_all fs entries = (log, out)"
    by (simp add: getLocalDepenencies_declared)
  note only = scan_all_log [OF scan]
  from only show "set log \<inter> {ManifestMissing, ManifestMalformed, DependenciesSectionMissing,
            InstalledPackagesMissing} = {}"
    by auto
  from only show "\<forall>key. DependencyValueInvalid key \<notin> set log"
    by auto
  have strings: "\<forall>(key, value) \<in> set entries. typeof value = ''string''"
    using assms(1) unfolding declaredDependencies_Returned_iff by blast
  show "\<forall>L. out = Returned L \<longrightarrow> map (\<lambda>a. (name a, JStr (version a))) L = entries"
  proof (intro allI impI)
    fix L assume "out = Returned L"
    with scan have "L = map (\<lambda>(key, value). \<lparr>name = key, version = str_of value,
              native = map_option hasNativeFiles (promiseFiles fs (dependency_folder key))\<rparr>) entries"
      using scan_all_Returned(3) by blast
    moreover have "JStr (str_of v) = v" if "(key, v) \<in> set entries" for key v
      using strings that by (cases v) auto
    ultimately show "map (\<lambda>a. (name a, JStr (version a))) L = entries"
      by (auto simp: o_def intro!: map_idI)
  qed
qed

section \<open>Names of the reconciled entries\<close>

text \<open>
  Claim C1 as the specification states it fails: a remote package whose name is that of a
  declared dependency without native files is in no entry. Here the channel records
  \<open>C\<close>, the project declares \<open>C\<close> and finds no native file in it, and the result has
  entries for \<open>A\<close> and \<open>B\<close> only.
\<close>

theorem totality_counterexample:
  "getLocalDepenencies example_fs = ([], Returned example_local)
   \<and> getRemoteDepenencies shadowed_res = ([], Returned shadowed_remote)
   \<and> checkCompatibility example_fs shadowed_res =
       ([], Returned \<lparr>finalCompatibility = [Matched ''A'' ''1.0.0'' ''1.0.0'', LocalOnly ''B'' ''2.0.0''],
                      localDependencies = example_local\<rparr>)
   \<and> entry_names [Matched ''A'' ''1.0.0'' ''1.0.0'', LocalOnly ''B'' ''2.0.0'']
       \<noteq> local_native_names example_local \<union> remote_names shadowed_remote"
proof -
  have run: "checkCompatibility example_fs shadowed_res =
       ([], Returned \<lparr>finalCompatibility = [Matched ''A'' ''1.0.0'' ''1.0.0'', LocalOnly ''B'' ''2.0.0''],
                      localDependencies = example_local\<rparr>)"
    by code_simp
  have "''C'' \<in> remote_names shadowed_remote"
    by (simp add: remote_names_def shadowed_remote_def)
  moreover have "''C'' \<notin> entry_names [Matched ''A'' ''1.0.0'' ''1.0.0'', LocalOnly ''B'' ''2.0.0'']"
    by (simp add: entry_names_def Matched_def LocalOnly_def)
  ultimately have "entry_names [Matched ''A'' ''1.0.0'' ''1.0.0'', LocalOnly ''B'' ''2.0.0'']
       \<noteq> local_native_names example_local \<union> remote_names shadowed_remote"
    by blast
  with run example_local_run shadowed_remote_run show ?thesis
    by simp
qed

text \<open>
  Claim C1, amended: when \<open>checkCompatibility\<close> merges the local list \<open>L\<close> and the
  remote map \<open>R\<close>, the names of the entries of \<open>finalCompatibility\<close> are the names of the
  native dependencies of \<open>L\<close> together with the names of \<open>R\<close> that no dependency of
  \<open>L\<close>, native or not, bears; and each of these names is in exactly one entry, the
  names of \<open>L\<close> being distinct, as the keys of \<open>dependencies\<close> are.
\<close>

theorem checkCompatibility_names:
  assumes "getLocalDepenencies fs = (l, Returned L)"
    and "getRemoteDepenencies res = (l', Returned R)"
  shows "\<exists>out. checkCompatibility fs res = (l @ l', Returned out)
           \<and> localDependencies out = L
           \<and> entry_names (finalCompatibility out)
               = local_native_names L \<union> (remote_names R - local_names L)
           \<and> (distinct (map name L) \<longrightarrow> distinct (map name (finalCompatibility out)))"
proof -
  let ?out = "\<lparr>finalCompatibility = finalDepenencies L R @ removeNotInLocal L R,
               localDependencies = L\<rparr>"
  have run: "checkCompatibility fs res = (l @ l', Returned ?out)"
    using assms by (rule checkCompatibility_Returned)
  have "entry_names (finalDepenencies L R @ removeNotInLocal L R)
          = entry_names (finalDepenencies L R) \<union> entry_names (removeNotInLocal L R)"
    by (simp add: entry_names_def)
  then have names: "entry_names (finalCompatibility ?out)
          = local_native_names L \<union> (remote_names R - local_names L)"
    by (simp add: entry_names_finalDepenencies entry_names_removeNotInLocal)
  have "distinct (map fst R)"
    using assms(2) by (rule getRemoteDepenencies_distinct)
  then have "distinct (map name L) \<longrightarrow> distinct (map name (finalCompatibility ?out))"
    by (simp add: distinct_names_merged del: map_append)
  with run names show ?thesis
    by (intro exI [of _ ?out]) simp
qed

theorem checkCompatibility_names_witness:
  "getLocalDepenencies example_fs = ([], Returned example_local)
   \<and> getRemoteDepenencies shadowed_res = ([], Returned shadowed_remote)
   \<and> distinct (map name example_local)
   \<and> (\<exists>out. checkCompatibility example_fs shadowed_res = ([], Returned out)
          \<and> entry_names (finalCompatibility out) = {''A'', ''B''}
          \<and> distinct (map name (finalCompatibility out)))"
proof -
  have names: "local_native_names example_local \<union> (remote_names shadowed_remote - local_names example_local)
      = {''A'', ''B''}"
    by (auto simp: local_native_names_def remote_names_def local_names_def example_local_def
        shadowed_remote_def is_native_def)
  from checkCompatibility_names [OF example_local_run shadowed_remote_run]
  show ?thesis
    using example_local_run shadowed_remote_run example_local_distinct names by auto
qed

section \<open>Classification of the entries\<close>

text \<open>
  Claim C2 as the specification states it fails in its last part: a remote entry whose
  name is absent from the local native set gets no \<open>RemoteOnly\<close> entry when a declared
  dependency without native files bears that name. The channel records \<open>C\<close> at
  \<open>0.9.0\<close>, \<open>C\<close> is declared and not native, and no entry for \<open>C\<close> is emitted.
\<close>

theorem remote_only_counterexample:
  "getLocalDepenencies example_fs = ([], Returned example_local)
   \<and> getRemoteDepenencies shadowed_res = ([], Returned shadowed_remote)
   \<and> checkCompatibility example_fs shadowed_res =
       ([], Returned \<lparr>finalCompatibility = [Matched ''A'' ''1.0.0'' ''1.0.0'', LocalOnly ''B'' ''2.0.0''],
                      localDependencies = example_local\<rparr>)
   \<and> Map_get shadowed_remote ''C'' = Some \<lparr>name = ''C'', version = ''0.9.0''\<rparr>
   \<and> ''C'' \<notin> local_native_names example_local
   \<and> RemoteOnly ''C'' ''0.9.0'' \<notin> set [Matched ''A'' ''1.0.0'' ''1.0.0'', LocalOnly ''B'' ''2.0.0'']"
proof -
  have "checkCompatibility example_fs shadowed_res =
       ([], Returned \<lparr>finalCompatibility = [Matched ''A'' ''1.0.0'' ''1.0.0'', LocalOnly ''B'' ''2.0.0''],
                      localDependencies = example_local\<rparr>)"
    by code_simp
  moreover have "Map_get shadowed_remote ''C'' = Some \<lparr>name = ''C'', version = ''0.9.0''\<rparr>"
    by (simp add: Map_get_def shadowed_remote_def)
  moreover have "''C'' \<notin> local_native_names example_local"
    by (simp add: local_native_names_def example_local_def is_native_def)
  moreover have "RemoteOnly ''C'' ''0.9.0'' \<notin> set [Matched ''A'' ''1.0.0'' ''1.0.0'', LocalOnly ''B'' ''2.0.0'']"
    by (simp add: RemoteOnly_def Matched_def LocalOnly_def)
  ultimately show ?thesis
    using example_local_run shadowed_remote_run by simp
qed

text \<open>
  Claim C2, amended: the entries of \<open>finalCompatibility\<close> are exactly these. For every
  local dependency flagged native, a \<open>Matched\<close> entry with the local and the remote
  version when the remote map has its name (whether or not the two versions are equal),
  and a \<open>LocalOnly\<close> entry when it has not; for every remote entry whose name no local
  dependency bears, native or not, a \<open>RemoteOnly\<close> entry. On the example of the
  specification the result is \<open>Matched(A, 1.0.0, 1.0.0)\<close>, \<open>LocalOnly(B, 2.0.0)\<close>,
  \<open>RemoteOnly(D, 3.0.0)\<close>.
\<close>

theorem checkCompatibility_classification:
  assumes "getLocalDepenencies fs = (l, Returned L)"
    and "getRemoteDepenencies res = (l', Returned R)"
  shows "(\<exists>out. checkCompatibility fs res = (l @ l', Returned out)
           \<and> set (finalCompatibility out) =
               (\<lambda>a. case Map_get R (name a) of
                       Some p \<Rightarrow> Matched (name a) (version a) (version p)
                     | None \<Rightarrow> LocalOnly (name a) (version a)) ` {a \<in> set L. is_native a}
               \<union> (\<lambda>(n, p). RemoteOnly n (version p)) ` {(n, p) \<in> set R. n \<notin> local_names L})
         \<and> checkCompatibility example_fs example_res =
             ([], Returned
                \<lparr>finalCompatibility =
                   [Matched ''A'' ''1.0.0'' ''1.0.0'', LocalOnly ''B'' ''2.0.0'',
                    RemoteOnly ''D'' ''3.0.0''],
                 localDependencies = example_local\<rparr>)"
proof
  let ?out = "\<lparr>finalCompatibility = finalDepenencies L R @ removeNotInLocal L R,
               localDependencies = L\<rparr>"
  have "checkCompatibility fs res = (l @ l', Returned ?out)"
    using assms by (rule checkCompatibility_Returned)
  moreover have "set (finalCompatibility ?out) =
      (\<lambda>a. case Map_get R (name a) of
              Some p \<Rightarrow> Matched (name a) (version a) (version p)
            | None \<Rightarrow> LocalOnly (name a) (version a)) ` {a \<in> set L. is_native a}
      \<union> (\<lambda>(n, p). RemoteOnly n (version p)) ` {(n, p) \<in> set R. n \<notin> local_names L}"
    by (simp add: set_finalDepenencies set_removeNotInLocal)
  ultimately show "\<exists>out. checkCompatibility fs res = (l @ l', Returned out)
           \<and> set (finalCompatibility out) =
               (\<lambda>a. case Map_get R (name a) of
                       Some p \<Rightarrow> Matched (name a) (version a) (version p)
                     | None \<Rightarrow> LocalOnly (name a) (version a)) ` {a \<in> set L. is_native a}
               \<union> (\<lambda>(n, p). RemoteOnly n (version p)) ` {(n, p) \<in> set R. n \<notin> local_names L}"
    by blast
next
  show "checkCompatibility example_fs example_res =
             ([], Returned
                \<lparr>finalCompatibility =
                   [Matched ''A'' ''1.0.0'' ''1.0.0'', LocalOnly ''B'' ''2.0.0'',
                    RemoteOnly ''D'' ''3.0.0''],
                 localDependencies = example_local\<rparr>)"
    by code_simp
qed

theorem checkCompatibility_classification_witness:
  "getLocalDepenencies example_fs = ([], Returned example_local)
   \<and> getRemoteDepenencies example_res = ([], Returned example_remote)
   \<and> (\<exists>out. checkCompatibility example_fs example_res = ([], Returned out)
          \<and> set (finalCompatibility out) =
              {Matched ''A'' ''1.0.0'' ''1.0.0'', LocalOnly ''B'' ''2.0.0'', RemoteOnly ''D'' ''3.0.0''})"
  using checkCompatibility_classification [OF example_local_run example_remote_run]
    example_local_run example_remote_run
  by auto

section \<open>Dependencies without native files\<close>

text \<open>
  Claim C3: when the remote map has the name of a local dependency whose native flag is
  false, the result has no entry of that name. The first pass leaves it out because it
  keeps the native dependencies only, and the second pass leaves it out because it looks
  the remote name up in the whole local list.
\<close>

theorem shadowed_remote_entry_disappears:
  assumes "getLocalDepenencies fs = (l, Returned L)"
    and "getRemoteDepenencies res = (l', Returned R)"
    and "distinct (map name L)"
    and "a \<in> set L" and "native a = Some False"
    and "name a \<in> remote_names R"
  shows "\<exists>out. checkCompatibility fs res = (l @ l', Returned out)
           \<and> finalCompatibility out = finalDepenencies L R @ removeNotInLocal L R
           \<and> name a \<notin> entry_names (finalDepenencies L R)
           \<and> name a \<notin> entry_names (removeNotInLocal L R)
           \<and> name a \<notin> entry_names (finalCompatibility out)"
proof -
  let ?out = "\<lparr>finalCompatibility = finalDepenencies L R @ removeNotInLocal L R,
               localDependencies = L\<rparr>"
  have run: "checkCompatibility fs res = (l @ l', Returned ?out)"
    using assms(1,2) by (rule checkCompatibility_Returned)
  have first: "name a \<notin> entry_names (finalDepenencies L R)"
    using non_native_not_in_native_names [OF assms(3-5)]
    by (simp add: entry_names_finalDepenencies)
  have "name a \<in> local_names L"
    using assms(4) by (simp add: local_names_def)
  then have second: "name a \<notin> entry_names (removeNotInLocal L R)"
    by (simp add: entry_names_removeNotInLocal)
  from first second have "name a \<notin> entry_names (finalCompatibility ?out)"
    by (simp add: entry_names_def)
  with run first second show ?thesis
    by (intro exI [of _ ?out]) simp
qed

theorem shadowed_remote_entry_disappears_witness:
  "getLocalDepenencies example_fs = ([], Returned example_local)
   \<and> getRemoteDepenencies shadowed_res = ([], Returned shadowed_remote)
   \<and> distinct (map name example_local)
   \<and> \<lparr>name = ''C'', version = ''1.0.0'', native = Some False\<rparr> \<in> set example_local
   \<and> ''C'' \<in> remote_names shadowed_remote
   \<and> (\<exists>out. checkCompatibility example_fs shadowed_res = ([], Returned out)
          \<and> ''C'' \<notin> entry_names (finalCompatibility out))"
proof -
  have "name \<lparr>name = ''C'', version = ''1.0.0'', native = Some False\<rparr> \<in> remote_names shadowed_remote"
    using shadowed_C_recorded by simp
  from shadowed_remote_entry_disappears [OF example_local_run shadowed_remote_run
      example_local_distinct example_C_declared _ this]
  show ?thesis
    using example_local_run shadowed_remote_run example_local_distinct example_C_declared
      shadowed_C_recorded
    by auto
qed

text \<open>
  Claim C5: a declared dependency whose native flag is false is named by no entry of
  \<open>finalCompatibility\<close>.
\<close>

theorem non_native_excluded:
  assumes "getLocalDepenencies fs = (l, Returned L)"
    and "getRemoteDepenencies res = (l', Returned R)"
    and "distinct (map name L)"
    and "a \<in> set L" and "native a = Some False"
  shows "\<exists>out. checkCompatibility fs res = (l @ l', Returned out)
           \<and> localDependencies out = L
           \<and> name a \<notin> entry_names (finalCompatibility out)"
proof -
  let ?out = "\<lparr>finalCompatibility = finalDepenencies L R @ removeNotInLocal L R,
               localDependencies = L\<rparr>"
  have run: "checkCompatibility fs res = (l @ l', Returned ?out)"
    using assms(1,2) by (rule checkCompatibility_Returned)
  have "name a \<notin> local_native_names L"
    using assms(3-5) by (rule non_native_not_in_native_names)
  moreover have "name a \<in> local_names L"
    using assms(4) by (simp add: local_names_def)
  ultimately have "name a \<notin> entry_names (finalDepenencies L R) \<union> entry_names (removeNotInLocal L R)"
    by (simp add: entry_names_finalDepenencies entry_names_removeNotInLocal)
  then have "name a \<notin> entry_names (finalCompatibility ?out)"
    by (simp add: entry_names_def)
  with run show ?thesis
    by (intro exI [of _ ?out]) simp
qed

theorem non_native_excluded_witness:
  "getLocalDepenencies example_fs = ([], Returned example_local)
   \<and> getRemoteDepenencies example_res = ([], Returned example_remote)
   \<and> distinct (map name example_local)
   \<and> \<lparr>name = ''C'', version = ''1.0.0'', native = Some False\<rparr> \<in> set example_local
   \<and> (\<exists>out. checkCompatibility example_fs example_res = ([], Returned out)
          \<and> ''C'' \<notin> entry_names (finalCompatibility out))"
  using non_native_excluded [OF example_local_run example_remote_run example_local_distinct
      example_C_declared]
    example_local_run example_remote_run example_local_distinct example_C_declared
  by auto

section \<open>Metadata of the channel\<close>

text \<open>
  Claim C10: when the query succeeded and the release bound to the channel has no
  \<open>native_packages\<close> field, or has \<open>null\<close> there, \<open>getRemoteDepenencies\<close> fails with
  \<open>NativeMetadataMissing\<close> and \<open>checkCompatibility\<close> never returns a result, whatever
  the local side is; when the field is the empty list, \<open>getRemoteDepenencies\<close> logs
  nothing and returns the empty map.
\<close>

theorem metadata_absent_or_empty:
  assumes "error res = None"
    and "get_prop (data res) ''version'' = Some release"
    and "get_prop release ''native_packages'' = Some v"
  shows "(v = JUndefined \<or> v = JNull \<longrightarrow>
            getRemoteDepenencies res = ([NativeMetadataMissing], Exited)
            \<and> (\<forall>fs log out. checkCompatibility fs res \<noteq> (log, Returned out)))
         \<and> (v = JArr [] \<longrightarrow> getRemoteDepenencies res = ([], Returned []))"
proof (intro conjI impI)
  assume v: "v = JUndefined \<or> v = JNull"
  then have "\<not> truthy v"
    by auto
  then show missing: "getRemoteDepenencies res = ([NativeMetadataMissing], Exited)"
    by (simp add: getRemoteDepenencies_metadata [OF assms] fail_with_def)
  show "\<forall>fs log out. checkCompatibility fs res \<noteq> (log, Returned out)"
    using checkCompatibility_needs_remote [OF missing] by blast
next
  assume "v = JArr []"
  then show "getRemoteDepenencies res = ([], Returned [])"
    by (simp add: getRemoteDepenencies_metadata [OF assms] and_then_def new_Map_def)
qed

theorem metadata_absent_or_empty_witness:
  "error (native_packages_result JNull) = None
   \<and> get_prop (data (native_packages_result JNull)) ''version'' = Some (JObj [(''native_packages'', JNull)])
   \<and> get_prop (JObj [(''native_packages'', JNull)]) ''native_packages'' = Some JNull
   \<and> getRemoteDepenencies (native_packages_result JNull) = ([NativeMetadataMissing], Exited)
   \<and> checkCompatibility example_fs (native_packages_result JNull) = ([NativeMetadataMissing], Exited)
   \<and> error (native_packages_result (JArr [])) = None
   \<and> get_prop (data (native_packages_result (JArr []))) ''version'' = Some (JObj [(''native_packages'', JArr [])])
   \<and> get_prop (JObj [(''native_packages'', JArr [])]) ''native_packages'' = Some (JArr [])
   \<and> getRemoteDepenencies (native_packages_result (JArr [])) = ([], Returned [])"
proof -
  have "checkCompatibility example_fs (native_packages_result JNull) = ([NativeMetadataMissing], Exited)"
    by code_simp
  then show ?thesis
    using metadata_absent_or_empty [OF native_packages_result_props, of JNull]
      metadata_absent_or_empty [OF native_packages_result_props, of "JArr []"]
      native_packages_result_props
    by simp
qed

section \<open>The native flag\<close>

text \<open>
  Claim C6: in the list that \<open>getLocalDepenencies\<close> returns, a dependency is flagged
  native exactly when one of the paths that \<open>promiseFiles\<close> lists under its folder ends
  with one or more alphanumeric characters, a dot, and \<open>java\<close>, \<open>swift\<close>, \<open>kt\<close> or
  \<open>scala\<close>; with no such path its flag is \<open>false\<close>.
\<close>

theorem native_flag_iff_native_file:
  assumes "getLocalDepenencies fs = (log, Returned L)" and "a \<in> set L"
  shows "\<exists>files. promiseFiles fs (dependency_folder (name a)) = Some files
           \<and> native a = Some (\<exists>path \<in> set files. native_source_path path)"
proof -
  from assms(1) obtain entries where "scan_all fs entries = (log, Returned L)"
    using getLocalDepenencies_Returned by blast
  note scan = scan_all_Returned [OF this]
  from scan(3) assms(2) obtain key v where entry: "(key, v) \<in> set entries"
      and a: "a = \<lparr>name = key, version = str_of v,
              native = map_option hasNativeFiles (promiseFiles fs (dependency_folder key))\<rparr>"
    by auto
  from scan(2) entry obtain files where "promiseFiles fs (dependency_folder key) = Some files"
    by fastforce
  with a show ?thesis
    by (simp add: hasNativeFiles_iff)
qed

theorem native_flag_iff_native_file_witness:
  "getLocalDepenencies example_fs = ([], Returned example_local)
   \<and> \<lparr>name = ''A'', version = ''1.0.0'', native = Some True\<rparr> \<in> set example_local
   \<and> \<lparr>name = ''C'', version = ''1.0.0'', native = Some False\<rparr> \<in> set example_local
   \<and> (\<exists>path \<in> set [''A/a.js'', ''A/ios/P.swift'']. native_source_path path)
   \<and> \<not> (\<exists>path \<in> set [''C/c.js'']. native_source_path path)"
proof -
  have A: "promiseFiles example_fs (dependency_folder ''A'') = Some [''A/a.js'', ''A/ios/P.swift'']"
    by (simp add: example_fs_def dependency_folder_def)
  have C: "promiseFiles example_fs (dependency_folder ''C'') = Some [''C/c.js'']"
    by (simp add: example_fs_def dependency_folder_def)
  from native_flag_iff_native_file [OF example_local_run example_A_declared] A
  have "\<exists>path \<in> set [''A/a.js'', ''A/ios/P.swift'']. native_source_path path"
    by simp
  moreover from native_flag_iff_native_file [OF example_local_run example_C_declared] C
  have "\<not> (\<exists>path \<in> set [''C/c.js'']. native_source_path path)"
    by simp
  ultimately show ?thesis
    using example_local_run example_A_declared example_C_declared by blast
qed

section \<open>Failures of the scan\<close>

text \<open>
  Claim C8: once the checks of the manifest have passed, a declared dependency whose
  folder is absent makes \<open>getLocalDepenencies\<close> log \<open>DependencyFolderMissing\<close> for it and
  exit, and \<open>checkCompatibility\<close> ends in the same way, before it merges anything.
\<close>

theorem missing_dependency_folder_is_fatal:
  assumes "declaredDependencies fs = ([], Returned entries)"
    and "(key, value) \<in> set entries"
    and "\<not> existsSync fs (dependency_folder key)"
  shows "\<exists>log. getLocalDepenencies fs = (log, Exited)
           \<and> DependencyFolderMissing key \<in> set log
           \<and> checkCompatibility fs res = (log, Exited)"
proof -
  from assms(2,3) obtain log where
    "scan_all fs entries = (log, Exited)" "DependencyFolderMissing key \<in> set log"
    using scan_all_folder_missing by blast
  with assms(1) have "getLocalDepenencies fs = (log, Exited) \<and> DependencyFolderMissing key \<in> set log"
    by (simp add: getLocalDepenencies_declared)
  then show ?thesis
    using checkCompatibility_needs_local by blast
qed

theorem missing_dependency_folder_is_fatal_witness:
  "declaredDependencies missing_folder_fs =
     ([], Returned [(''A'', JStr ''1.0.0''), (''B'', JStr ''2.0.0''), (''C'', JStr ''1.0.0'')])
   \<and> \<not> existsSync missing_folder_fs (dependency_folder ''B'')
   \<and> getLocalDepenencies missing_folder_fs = ([DependencyFolderMissing ''B''], Exited)
   \<and> checkCompatibility missing_folder_fs example_res = ([DependencyFolderMissing ''B''], Exited)"
proof -
  have absent: "\<not> existsSync missing_folder_fs (dependency_folder ''B'')"
    by (simp add: missing_folder_fs_def dependency_folder_def)
  have run: "getLocalDepenencies missing_folder_fs = ([DependencyFolderMissing ''B''], Exited)"
    by code_simp
  from missing_dependency_folder_is_fatal [OF missing_folder_declared _ absent, of "JStr ''2.0.0''" example_res]
  show ?thesis
    using missing_folder_declared absent run by auto
qed

text \<open>
  Claim C9: once the checks of the manifest have passed, a declared dependency whose
  folder is there and whose scan is rejected makes \<open>getLocalDepenencies\<close> end with the
  message \<open>ScanFailed\<close> of a rejected scan and exit, returning no list, and
  \<open>checkCompatibility\<close> ends in the same way.
\<close>

theorem scan_failure_is_terminal:
  assumes "declaredDependencies fs = ([], Returned entries)"
    and "(key, value) \<in> set entries"
    and "existsSync fs (dependency_folder key)"
    and "promiseFiles fs (dependency_folder key) = None"
  shows "\<exists>log key'. getLocalDepenencies fs = (log @ [ScanFailed key'], Exited)
           \<and> ScanFailed key' \<notin> set log
           \<and> promiseFiles fs (dependency_folder key') = None
           \<and> checkCompatibility fs res = (log @ [ScanFailed key'], Exited)"
proof -
  from assms(2-4) obtain log key' where
    "scan_all fs entries = (log @ [ScanFailed key'], Exited)" "ScanFailed key' \<notin> set log"
    "promiseFiles fs (dependency_folder key') = None"
    using scan_all_rejected by blast
  with assms(1) have "getLocalDepenencies fs = (log @ [ScanFailed key'], Exited)
      \<and> ScanFailed key' \<notin> set log \<and> promiseFiles fs (dependency_folder key') = None"
    by (simp add: getLocalDepenencies_declared)
  then show ?thesis
    using checkCompatibility_needs_local by blast
qed

theorem scan_failure_is_terminal_witness:
  "declaredDependencies unreadable_fs =
     ([], Returned [(''A'', JStr ''1.0.0''), (''B'', JStr ''2.0.0''), (''C'', JStr ''1.0.0'')])
   \<and> existsSync unreadable_fs (dependency_folder ''B'')
   \<and> promiseFiles unreadable_fs (dependency_folder ''B'') = None
   \<and> getLocalDepenencies unreadable_fs = ([ScanFailed ''B''], Exited)
   \<and> checkCompatibility unreadable_fs example_res = ([ScanFailed ''B''], Exited)"
proof -
  have present: "existsSync unreadable_fs (dependency_folder ''B'')"
    by (simp add: unreadable_fs_def example_fs_def dependency_folder_def)
  have unreadable: "promiseFiles unreadable_fs (dependency_folder ''B'') = None"
    by (simp add: unreadable_fs_def dependency_folder_def)
  have run: "getLocalDepenencies unreadable_fs = ([ScanFailed ''B''], Exited)"
    by code_simp
  from scan_failure_is_terminal [OF unreadable_declared _ present unreadable, of "JStr ''2.0.0''" example_res]
  show ?thesis
    using unreadable_declared present unreadable run by auto
qed

section \<open>A null entry in the remote list\<close>

text \<open>
  Claim C4 does not hold of the code for a list with a \<open>null\<close> entry. \<open>typeof null\<close>
  is \<open>'object'\<close>, so the entry passes the check of line 508, and line 513 destructures
  \<open>name\<close> and \<open>version\<close> out of \<open>null\<close>: a \<open>TypeError\<close> that nothing catches. No
  \<open>NativeMetadataMalformed\<close> message is logged and \<open>program.error\<close> is not called; no
  map is returned either.
\<close>

theorem null_entry_throws:
  "getRemoteDepenencies (native_packages_result (JArr [remote_entry ''A'' ''1.0.0'', JNull]))
     = ([], Threw)"
  by code_simp

section \<open>A null manifest\<close>

text \<open>
  Claim C7 does not hold of the code for a manifest whose content is the JSON text
  \<open>null\<close>. The file exists and parses, its dependency mapping is absent, and line 418
  destructures \<open>dependencies\<close> out of \<open>null\<close>: a \<open>TypeError\<close> that nothing catches,
  where the claim has \<open>DependenciesSectionMissing\<close>.
\<close>

theorem null_manifest_throws:
  "existsSync null_manifest_fs ''./package.json''
   \<and> JSON_parse_package_json null_manifest_fs = Some JNull
   \<and> getLocalDepenencies null_manifest_fs = ([], Threw)"
  by code_simp

end
